theory Spec2Isabelle
  imports Complex_Main
begin

section \<open>Data model\<close>

text \<open>
  The verification cog of \<^verbatim>\<open>src/bot/cogs/verification.py\<close>.

  A \<^verbatim>\<open>datetime\<close> is a count of microseconds since the epoch and a \<^verbatim>\<open>timedelta\<close> a
  count of microseconds, both unbounded integers: Python keeps both at microsecond
  resolution and compares them exactly. A role is its id. A member carries what the cog
  reads of a \<^verbatim>\<open>discord.Member\<close>: the id, the \<^verbatim>\<open>bot\<close> flag, \<^verbatim>\<open>joined_at\<close> (which
  may be \<^verbatim>\<open>None\<close>) and the list \<^verbatim>\<open>roles\<close>.
\<close>

type_synonym datetime = int
type_synonym timedelta = int
type_synonym role = nat
type_synonym http_status = nat

record member =
  m_id :: nat
  m_bot :: bool
  m_joined_at :: "datetime option"
  m_roles :: "role list"

definition timedelta_days :: "int \<Rightarrow> timedelta" where
  "timedelta_days d = d * 86400000000"

definition timedelta_hours :: "int \<Rightarrow> timedelta" where
  "timedelta_hours h = h * 3600000000"

definition UNVERIFIED_AFTER :: int where
  "UNVERIFIED_AFTER = 3"

definition KICKED_AFTER :: int where
  "KICKED_AFTER = 30"

definition REMINDER_FREQUENCY :: int where
  "REMINDER_FREQUENCY = 28"

text \<open>
  A Python \<^verbatim>\<open>set\<close> that the code builds with \<^verbatim>\<open>add\<close> and later iterates is a list
  without repetition; the order of the list stands for the iteration order of the set.
\<close>

definition set_add :: "'a \<Rightarrow> 'a list \<Rightarrow> 'a list" where
  "set_add x xs = (if x \<in> set xs then xs else xs @ [x])"

section \<open>Classification: \<^verbatim>\<open>_check_members\<close>\<close>

text \<open>
  The loop over \<^verbatim>\<open>pydis.members\<close>, with the two sets \<^verbatim>\<open>for_role\<close> and
  \<^verbatim>\<open>for_kick\<close> as accumulators. The first two branches are the two \<^verbatim>\<open>continue\<close>
  statements of the source; \<^verbatim>\<open>joined_at\<close> is read only after the first of them has
  excluded \<^verbatim>\<open>None\<close>.
\<close>

fun check_members_loop ::
  "role \<Rightarrow> role \<Rightarrow> datetime \<Rightarrow> member list \<Rightarrow> member list \<Rightarrow> member list
    \<Rightarrow> member list \<times> member list" where
  "check_members_loop unverified default_role current_dt [] for_role for_kick =
     (for_role, for_kick)"
| "check_members_loop unverified default_role current_dt (member # rest) for_role for_kick =
     (if m_bot member \<or> m_joined_at member = None
      then check_members_loop unverified default_role current_dt rest for_role for_kick
      else
        let unverified_roles = {unverified, default_role} in
        if set (m_roles member) - unverified_roles \<noteq> {}
        then check_members_loop unverified default_role current_dt rest for_role for_kick
        else
          let since_join = current_dt - the (m_joined_at member) in
          if since_join > timedelta_days KICKED_AFTER
          then check_members_loop unverified default_role current_dt rest
                 for_role (set_add member for_kick)
          else if since_join > timedelta_days UNVERIFIED_AFTER
                  \<and> unverified \<notin> set (m_roles member)
          then check_members_loop unverified default_role current_dt rest
                 (set_add member for_role) for_kick
          else check_members_loop unverified default_role current_dt rest for_role for_kick)"

definition check_members ::
  "role \<Rightarrow> role \<Rightarrow> datetime \<Rightarrow> member list \<Rightarrow> member list \<times> member list" where
  "check_members unverified default_role current_dt members =
     check_members_loop unverified default_role current_dt members [] []"

subsection \<open>The classifier as the specification words it\<close>

text \<open>
  The reference definition follows section 4.1 of the specification: a policy of two
  durations, the pending role and the baseline roles; one action per member; the two
  result sets hold member identifiers.
\<close>

record policy =
  warningAfter :: timedelta
  removalAfter :: timedelta
  pendingRoleId :: role
  baselineRoleIds :: "role set"

datatype action = NeedsWarning | NeedsRemoval | NoAction

definition spec_unverified :: "policy \<Rightarrow> member \<Rightarrow> bool" where
  "spec_unverified p m = (set (m_roles m) \<subseteq> baselineRoleIds p \<union> {pendingRoleId p})"

definition spec_action :: "policy \<Rightarrow> datetime \<Rightarrow> member \<Rightarrow> action" where
  "spec_action p now m =
     (case m_joined_at m of
        None \<Rightarrow> NoAction
      | Some joinTime \<Rightarrow>
          if m_bot m then NoAction
          else if \<not> spec_unverified p m then NoAction
          else if now - joinTime > removalAfter p then NeedsRemoval
          else if now - joinTime > warningAfter p \<and> pendingRoleId p \<notin> set (m_roles m)
          then NeedsWarning
          else NoAction)"

definition classify :: "member list \<Rightarrow> datetime \<Rightarrow> policy \<Rightarrow> nat set \<times> nat set" where
  "classify members now p =
     (m_id ` {m \<in> set members. spec_action p now m = NeedsWarning},
      m_id ` {m \<in> set members. spec_action p now m = NeedsRemoval})"

definition cog_policy :: "role \<Rightarrow> role \<Rightarrow> policy" where
  "cog_policy unverified default_role =
     \<lparr>warningAfter = timedelta_days 3, removalAfter = timedelta_days 30,
      pendingRoleId = unverified, baselineRoleIds = {default_role}\<rparr>"

section \<open>Effects, errors and the environment\<close>

text \<open>
  Every call that leaves the process (a Discord request, a cache access, a sleep, a log
  line) is an event; an effectful function returns its value together with the events it
  produced, in order. A Python exception that leaves a function is a value of \<open>error\<close>.

  A Discord request answers \<open>Inr value\<close> or \<open>Inl exception\<close>. The exception is a
  \<^verbatim>\<open>discord.HTTPException\<close> (or one of its subclasses) with its status code, or any
  other exception, kept by the name of its class. \<open>caught_status\<close> is what a handler
  \<^verbatim>\<open>except discord.HTTPException as http_exc\<close> sees: the status of an exception it
  catches, and \<open>None\<close> for an exception that passes it by.
\<close>

datatype error = ZeroDivisionError | HTTPException http_status | Other_exception string

fun caught_status :: "error \<Rightarrow> http_status option" where
  "caught_status (HTTPException status) = Some status"
| "caught_status exc = None"

datatype kick_report =
    Found_no_users_to_be_kicked
  | Not_authorized_to_kick nat
  | Kicked nat nat

datatype role_report =
    Found_no_users_to_be_assigned
  | Assigned_role nat nat

datatype log_msg =
    Checking_whether_safe_to_kick nat
  | Seen_as_safe rat
  | Requesting_staff_confirmation
  | Staff_prompt_not_answered
  | Received_answer string bool
  | Kicking_members nat
  | Failed_to_kick nat "http_status list"
  | Assigning_role role nat
  | Failed_to_assign nat "http_status list"
  | Checking_verification_status
  | Found_users nat role nat
  | Updating_unverified_members
  | Found_reminder_in_cache nat
  | Sending_reminder
  | Reminder_not_cached
  | Time_since_reminder timedelta
  | Time_to_sleep timedelta

datatype event =
    Log log_msg
  | Send_prompt nat rat
  | Add_reaction nat string
  | Wait_for_reaction_add nat
  | Clear_reactions nat
  | Edit_prompt nat nat string
  | Kick member
  | Add_roles member role
  | Send_log_message kick_report role_report
  | Cache_get
  | Delete_message nat
  | Send_reminder
  | Cache_set nat
  | Sleep timedelta

text \<open>
  A \<^verbatim>\<open>reaction_add\<close> event as \<^verbatim>\<open>check\<close> reads it: the id of the message reacted to,
  \<^verbatim>\<open>str(reaction.emoji)\<close>, and whether the reacting user is a bot.
\<close>

record reaction =
  r_message_id :: nat
  r_emoji :: string
  r_user_bot :: bool

text \<open>
  What one run of the cog reads from outside:
  \<^item> \<open>members\<close> is \<^verbatim>\<open>pydis.members\<close> when \<^verbatim>\<open>_check_members\<close> reads it, and
    \<open>gate_members\<close> is \<^verbatim>\<open>pydis.members\<close> when \<^verbatim>\<open>_verify_kick\<close> reads it later (the
    coroutine has awaited in between);
  \<^item> \<open>unverified\<close> and \<open>default_role\<close> are the two roles looked up in the guild;
  \<^item> \<open>current_dt\<close> is \<^verbatim>\<open>datetime.utcnow()\<close>;
  \<^item> \<open>add_roles\<close> and \<open>kick\<close> answer the request that the cycle makes for a
    member: success, or the status of the \<^verbatim>\<open>discord.HTTPException\<close> raised;
  \<^item> \<open>prompt_id\<close> is the id of the confirmation message that \<^verbatim>\<open>core_devs.send\<close>
    returns, and \<open>reactions\<close> are the \<^verbatim>\<open>reaction_add\<close> events dispatched before the
    timeout of \<^verbatim>\<open>wait_for\<close> expires, in order;
  \<^item> \<open>incident_actioned\<close> and \<open>incident_unactioned\<close> are the two emoji of
    \<^verbatim>\<open>bot.constants.Emojis\<close>, a module that is not part of the cog.
\<close>

record env =
  members :: "member list"
  gate_members :: "member list"
  unverified :: role
  default_role :: role
  current_dt :: datetime
  add_roles :: "member \<Rightarrow> http_status + unit"
  kick :: "member \<Rightarrow> http_status + unit"
  prompt_id :: nat
  reactions :: "reaction list"
  incident_actioned :: string
  incident_unactioned :: string

section \<open>The confirmation gate: \<^verbatim>\<open>_verify_kick\<close>\<close>

text \<open>
  \<^verbatim>\<open>KICK_CONFIRMATION_THRESHOLD\<close> is a module constant that the source invites to
  change (\<^verbatim>\<open>Number in range [0, 1]\<close>), so the gate takes it as its first argument.
  \<^verbatim>\<open>percentage\<close> is the exact quotient; Python computes a float, whose comparison with
  the constant 0 of the source depends on its sign only.
\<close>

definition KICK_CONFIRMATION_THRESHOLD :: rat where
  "KICK_CONFIRMATION_THRESHOLD = 0"

definition check :: "nat \<Rightarrow> string list \<Rightarrow> reaction \<Rightarrow> bool" where
  "check confirmation_msg options reaction =
     (r_message_id reaction = confirmation_msg
      \<and> r_emoji reaction \<in> set options
      \<and> \<not> r_user_bot reaction)"

definition prompt_events :: "env \<Rightarrow> nat \<Rightarrow> rat \<Rightarrow> event list" where
  "prompt_events e n_members percentage =
     [Log (Checking_whether_safe_to_kick n_members),
      Log Requesting_staff_confirmation,
      Send_prompt n_members percentage]
     @ map (Add_reaction (prompt_id e)) [incident_actioned e, incident_unactioned e]
     @ [Wait_for_reaction_add (60 * 5)]"

definition verify_kick :: "rat \<Rightarrow> env \<Rightarrow> nat \<Rightarrow> (error + bool) \<times> event list" where
  "verify_kick threshold e n_members =
     (if length (gate_members e) = 0
      then (Inl ZeroDivisionError, [Log (Checking_whether_safe_to_kick n_members)])
      else
        let percentage = of_nat n_members / of_nat (length (gate_members e)) in
        if percentage < threshold
        then (Inr True,
              [Log (Checking_whether_safe_to_kick n_members), Log (Seen_as_safe percentage)])
        else
          let options = [incident_actioned e, incident_unactioned e];
              confirmation_msg = prompt_id e
          in case find (check confirmation_msg options) (reactions e) of
               None \<Rightarrow>
                 (Inr False,
                  prompt_events e n_members percentage
                  @ [Log Staff_prompt_not_answered, Clear_reactions confirmation_msg])
             | Some choice \<Rightarrow>
                 let result = (r_emoji choice = incident_actioned e) in
                 (Inr result,
                  prompt_events e n_members percentage
                  @ [Clear_reactions confirmation_msg,
                     Log (Received_answer (r_emoji choice) result),
                     Edit_prompt confirmation_msg n_members
                       (if result then ''authorized'' else ''denied'')]))"

subsection \<open>The decision in the vocabulary of the specification\<close>

text \<open>
  The source returns a \<^verbatim>\<open>bool\<close>. The four decisions of the specification are read off
  the returned value and the events: no wait means the gate approved by itself; after a
  wait, \<^verbatim>\<open>True\<close> is the approval, and \<^verbatim>\<open>False\<close> is the timeout when the log line of
  the \<^verbatim>\<open>except asyncio.TimeoutError\<close> branch was written and the denial otherwise.
\<close>

datatype ConfirmationDecision = AutoApproved | HumanApproved | HumanDenied | TimedOut

definition has_wait :: "event list \<Rightarrow> bool" where
  "has_wait evs = (Wait_for_reaction_add (60 * 5) \<in> set evs)"

definition decision_of :: "bool \<Rightarrow> event list \<Rightarrow> ConfirmationDecision" where
  "decision_of result evs =
     (if \<not> has_wait evs then (if result then AutoApproved else HumanDenied)
      else if result then HumanApproved
      else if Log Staff_prompt_not_answered \<in> set evs then TimedOut
      else HumanDenied)"

definition authorize :: "rat \<Rightarrow> env \<Rightarrow> nat \<Rightarrow> error + ConfirmationDecision" where
  "authorize threshold e candidateCount =
     (case verify_kick threshold e candidateCount of
        (Inl err, evs) \<Rightarrow> Inl err
      | (Inr result, evs) \<Rightarrow> Inr (decision_of result evs))"

text \<open>
  Two names for what the gate computes on its way: the quotient it compares with the
  threshold, and the reaction that \<^verbatim>\<open>wait_for\<close> returns, which is the first one that
  passes \<^verbatim>\<open>check\<close>, if there is one before the timeout.
\<close>

definition percentage :: "env \<Rightarrow> nat \<Rightarrow> rat" where
  "percentage e n_members = of_nat n_members / of_nat (length (gate_members e))"

definition qualifying_response :: "env \<Rightarrow> reaction option" where
  "qualifying_response e =
     find (check (prompt_id e) [incident_actioned e, incident_unactioned e]) (reactions e)"

text \<open>
  A qualifying response as the glossary of the specification words it: a reaction by a
  human, to the confirmation prompt, with one of the two allowed tokens.
\<close>

definition qualifying :: "env \<Rightarrow> reaction \<Rightarrow> bool" where
  "qualifying e r =
     (\<not> r_user_bot r \<and> r_message_id r = prompt_id e
      \<and> (r_emoji r = incident_actioned e \<or> r_emoji r = incident_unactioned e))"

section \<open>The executor: \<^verbatim>\<open>_kick_members\<close> and \<^verbatim>\<open>_give_role\<close>\<close>

text \<open>
  Both loops keep a counter and the set \<^verbatim>\<open>bad_statuses\<close>. For each member the request
  is made; the \<^verbatim>\<open>except discord.HTTPException\<close> branch adds the status and the
  \<^verbatim>\<open>else\<close> branch counts, and the loop goes on in both. An exception that the handler
  does not catch leaves the loop and the function at once. After the loop the set is
  written to the log when it is not empty, and the counter is returned.
\<close>

fun kick_members_loop ::
  "(member \<Rightarrow> error + unit) \<Rightarrow> member list \<Rightarrow> nat \<Rightarrow> http_status list
    \<Rightarrow> (error + nat \<times> http_status list) \<times> event list" where
  "kick_members_loop kick_request [] n_kicked bad_statuses =
     (Inr (n_kicked, bad_statuses), [])"
| "kick_members_loop kick_request (member # rest) n_kicked bad_statuses =
     (case kick_request member of
        Inl exc \<Rightarrow>
          (case caught_status exc of
             Some status \<Rightarrow>
               (case kick_members_loop kick_request rest n_kicked
                       (set_add status bad_statuses) of
                  (final, evs) \<Rightarrow> (final, Kick member # evs))
           | None \<Rightarrow> (Inl exc, [Kick member]))
      | Inr _ \<Rightarrow>
          (case kick_members_loop kick_request rest (n_kicked + 1) bad_statuses of
             (final, evs) \<Rightarrow> (final, Kick member # evs)))"

definition kick_members ::
  "(member \<Rightarrow> error + unit) \<Rightarrow> member list \<Rightarrow> (error + nat) \<times> event list" where
  "kick_members kick_request for_kick =
     (case kick_members_loop kick_request for_kick 0 [] of
        (Inl exc, evs) \<Rightarrow> (Inl exc, Log (Kicking_members (length for_kick)) # evs)
      | (Inr (n_kicked, bad_statuses), evs) \<Rightarrow>
          (Inr n_kicked,
           [Log (Kicking_members (length for_kick))] @ evs
           @ (if bad_statuses \<noteq> []
              then [Log (Failed_to_kick (length for_kick - n_kicked) bad_statuses)]
              else [])))"

fun give_role_loop ::
  "(member \<Rightarrow> error + unit) \<Rightarrow> role \<Rightarrow> member list \<Rightarrow> nat \<Rightarrow> http_status list
    \<Rightarrow> (error + nat \<times> http_status list) \<times> event list" where
  "give_role_loop add_request r [] n_success bad_statuses =
     (Inr (n_success, bad_statuses), [])"
| "give_role_loop add_request r (member # rest) n_success bad_statuses =
     (case add_request member of
        Inl exc \<Rightarrow>
          (case caught_status exc of
             Some status \<Rightarrow>
               (case give_role_loop add_request r rest n_success
                       (set_add status bad_statuses) of
                  (final, evs) \<Rightarrow> (final, Add_roles member r # evs))
           | None \<Rightarrow> (Inl exc, [Add_roles member r]))
      | Inr _ \<Rightarrow>
          (case give_role_loop add_request r rest (n_success + 1) bad_statuses of
             (final, evs) \<Rightarrow> (final, Add_roles member r # evs)))"

definition give_role ::
  "(member \<Rightarrow> error + unit) \<Rightarrow> member list \<Rightarrow> role \<Rightarrow> (error + nat) \<times> event list" where
  "give_role add_request for_role r =
     (case give_role_loop add_request r for_role 0 [] of
        (Inl exc, evs) \<Rightarrow> (Inl exc, Log (Assigning_role r (length for_role)) # evs)
      | (Inr (n_success, bad_statuses), evs) \<Rightarrow>
          (Inr n_success,
           [Log (Assigning_role r (length for_role))] @ evs
           @ (if bad_statuses \<noteq> []
              then [Log (Failed_to_assign (length for_role - n_success) bad_statuses)]
              else [])))"

section \<open>The reconciliation cycle: \<^verbatim>\<open>update_unverified_members\<close>\<close>

text \<open>
  The cycle calls the executor with the requests of its environment, whose failures are
  \<^verbatim>\<open>discord.HTTPException\<close>s. An exception that leaves one of the steps leaves the
  cycle, and the steps after it do not run.
\<close>

definition http_request :: "(member \<Rightarrow> http_status + unit) \<Rightarrow> member \<Rightarrow> error + unit" where
  "http_request answer m =
     (case answer m of Inl status \<Rightarrow> Inl (HTTPException status) | Inr u \<Rightarrow> Inr u)"




section \<open>The reminder: \<^verbatim>\<open>ping_unverified\<close> and \<^verbatim>\<open>_before_first_ping\<close>\<close>




text \<open>
  \<^verbatim>\<open>snowflake_time\<close> belongs to the Discord library; it is an argument here. The time
  slept is kept in microseconds: \<^verbatim>\<open>to_sleep.total_seconds()\<close> is that count divided by
  \<open>10\<^sup>6\<close>.
\<close>

definition before_first_ping ::
  "(nat \<Rightarrow> datetime) \<Rightarrow> datetime \<Rightarrow> nat option \<Rightarrow> event list" where
  "before_first_ping snowflake_time utcnow cache =
     (case cache of
        None \<Rightarrow> [Cache_get, Log Reminder_not_cached]
      | Some last_reminder \<Rightarrow>
          let time_since = utcnow - snowflake_time last_reminder;
              to_sleep = timedelta_hours REMINDER_FREQUENCY - time_since;
              secs = max to_sleep 0
          in [Cache_get, Log (Time_since_reminder time_since), Log (Time_to_sleep to_sleep),
              Sleep secs])"

fun slept :: "event list \<Rightarrow> timedelta" where
  "slept [] = 0"
| "slept (Sleep d # evs) = d + slept evs"
| "slept (ev # evs) = slept evs"

subsection \<open>The initial delay as the specification words it\<close>

definition computeInitialDelay ::
  "(nat \<Rightarrow> datetime) \<Rightarrow> nat option \<Rightarrow> timedelta \<Rightarrow> datetime \<Rightarrow> timedelta" where
  "computeInitialDelay timestampOf lastReminderId frequency now =
     (case lastReminderId of
        None \<Rightarrow> 0
      | Some i \<Rightarrow> max (frequency - (now - timestampOf i)) 0)"

section \<open>Reading the events\<close>

fun is_kick :: "event \<Rightarrow> bool" where
  "is_kick (Kick m) = True"
| "is_kick ev = False"

fun is_add_roles :: "event \<Rightarrow> bool" where
  "is_add_roles (Add_roles m r) = True"
| "is_add_roles ev = False"

fun is_prompt :: "event \<Rightarrow> bool" where
  "is_prompt (Send_prompt n_members fraction) = True"
| "is_prompt ev = False"

fun is_wait :: "event \<Rightarrow> bool" where
  "is_wait (Wait_for_reaction_add timeout) = True"
| "is_wait ev = False"

fun is_clear :: "event \<Rightarrow> bool" where
  "is_clear (Clear_reactions confirmation_msg) = True"
| "is_clear ev = False"

fun is_edit :: "event \<Rightarrow> bool" where
  "is_edit (Edit_prompt confirmation_msg n_members outcome) = True"
| "is_edit ev = False"

fun is_gate_call :: "event \<Rightarrow> bool" where
  "is_gate_call (Log (Checking_whether_safe_to_kick n_members)) = True"
| "is_gate_call ev = False"






section \<open>Example data\<close>

text \<open>
  A guild of seven members at the end of day 100, with the pending role 7 and the
  default role 0: a bot, a member without join date, a verified member (role 5), a
  member who joined 100 days ago, one who joined 10 days ago, one who joined 10 days ago
  and already holds the pending role, and one who joined exactly 3 days ago.
\<close>

definition ex_now :: datetime where
  "ex_now = timedelta_days 100"

definition ex_bot :: member where
  "ex_bot = \<lparr>m_id = 1, m_bot = True, m_joined_at = Some (timedelta_days 50), m_roles = [0]\<rparr>"

definition ex_unknown :: member where
  "ex_unknown = \<lparr>m_id = 2, m_bot = False, m_joined_at = None, m_roles = [0]\<rparr>"

definition ex_verified :: member where
  "ex_verified =
     \<lparr>m_id = 3, m_bot = False, m_joined_at = Some (timedelta_days 50), m_roles = [0, 5]\<rparr>"

definition ex_overdue :: member where
  "ex_overdue = \<lparr>m_id = 4, m_bot = False, m_joined_at = Some 0, m_roles = [0]\<rparr>"

definition ex_late :: member where
  "ex_late = \<lparr>m_id = 5, m_bot = False, m_joined_at = Some (timedelta_days 90), m_roles = [0]\<rparr>"

definition ex_pending :: member where
  "ex_pending =
     \<lparr>m_id = 6, m_bot = False, m_joined_at = Some (timedelta_days 90), m_roles = [0, 7]\<rparr>"

definition ex_boundary :: member where
  "ex_boundary =
     \<lparr>m_id = 7, m_bot = False, m_joined_at = Some (timedelta_days 97), m_roles = [0]\<rparr>"

definition ex_members :: "member list" where
  "ex_members = [ex_bot, ex_unknown, ex_verified, ex_overdue, ex_late, ex_pending, ex_boundary]"

text \<open>
  The reactions that arrive for the prompt 900: one by a bot, one to another message,
  one with another emoji, then a denial by a human, then an approval.
\<close>

definition ex_reactions :: "reaction list" where
  "ex_reactions =
     [\<lparr>r_message_id = 900, r_emoji = ''ok'', r_user_bot = True\<rparr>,
      \<lparr>r_message_id = 901, r_emoji = ''ok'', r_user_bot = False\<rparr>,
      \<lparr>r_message_id = 900, r_emoji = ''hm'', r_user_bot = False\<rparr>,
      \<lparr>r_message_id = 900, r_emoji = ''no'', r_user_bot = False\<rparr>,
      \<lparr>r_message_id = 900, r_emoji = ''ok'', r_user_bot = False\<rparr>]"

definition ex_request :: "member \<Rightarrow> http_status + unit" where
  "ex_request m = (if m_id m = 2 \<or> m_id m = 5 then Inl 403 else Inr ())"

definition ex_env :: env where
  "ex_env =
     \<lparr>members = ex_members, gate_members = ex_members, unverified = 7, default_role = 0,
      current_dt = ex_now, add_roles = ex_request, kick = ex_request, prompt_id = 900,
      reactions = ex_reactions, incident_actioned = ''ok'', incident_unactioned = ''no''\<rparr>"

text \<open>The same guild when only a bot reacts to the prompt before the timeout.\<close>

definition ex_env_silent :: env where
  "ex_env_silent =
     ex_env\<lparr>reactions := [\<lparr>r_message_id = 900, r_emoji = ''ok'', r_user_bot = True\<rparr>]\<rparr>"

text \<open>The same guild when the first qualifying reaction is an approval.\<close>

definition ex_env_approved :: env where
  "ex_env_approved =
     ex_env\<lparr>reactions := [\<lparr>r_message_id = 900, r_emoji = ''ok'', r_user_bot = False\<rparr>]\<rparr>"

text \<open>The same guild with no member left when the gate reads the member list.\<close>

definition ex_env_empty :: env where
  "ex_env_empty = ex_env\<lparr>gate_members := []\<rparr>"



definition ex_batch :: "member list" where
  "ex_batch = [ex_bot, ex_unknown, ex_verified, ex_overdue, ex_late]"

definition ex_snowflake_time :: "nat \<Rightarrow> datetime" where
  "ex_snowflake_time i = timedelta_hours (int i)"



definition ex_request_broken :: "member \<Rightarrow> error + unit" where
  "ex_request_broken m =
     (if m_id m = 3 then Inl (Other_exception ''ConnectionResetError'') else Inr ())"


lemmas ex_member_defs =
  ex_now_def ex_bot_def ex_unknown_def ex_verified_def ex_overdue_def ex_late_def
  ex_pending_def ex_boundary_def ex_members_def

section \<open>Properties of the classifier\<close>

lemma set_set_add: "set (set_add x xs) = insert x (set xs)"
  by (auto simp: set_add_def)

lemma distinct_set_add: "distinct xs \<Longrightarrow> distinct (set_add x xs)"
  by (simp add: set_add_def)

lemma spec_unverified_cog:
  "spec_unverified (cog_policy u d) m \<longleftrightarrow> set (m_roles m) - {u, d} = {}"
  by (auto simp: spec_unverified_def cog_policy_def)

lemma check_members_loop_step:
  "check_members_loop u d now (m # ms) fr fk =
     check_members_loop u d now ms
       (if spec_action (cog_policy u d) now m = NeedsWarning then set_add m fr else fr)
       (if spec_action (cog_policy u d) now m = NeedsRemoval then set_add m fk else fk)"
proof -
  have pol: "removalAfter (cog_policy u d) = timedelta_days KICKED_AFTER"
    "warningAfter (cog_policy u d) = timedelta_days UNVERIFIED_AFTER"
    "pendingRoleId (cog_policy u d) = u"
    by (simp_all add: cog_policy_def KICKED_AFTER_def UNVERIFIED_AFTER_def)
  show ?thesis
    by (cases "m_joined_at m") (simp_all add: spec_action_def spec_unverified_cog pol Let_def)
qed

lemma check_members_loop_for_role:
  "set (fst (check_members_loop u d now ms fr fk)) =
     set fr \<union> {m \<in> set ms. spec_action (cog_policy u d) now m = NeedsWarning}"
proof (induction ms arbitrary: fr fk)
  case Nil
  show ?case by simp
next
  case (Cons m ms)
  show ?case
    unfolding check_members_loop_step Cons.IH
    by (auto simp: set_set_add)
qed

lemma check_members_loop_for_kick:
  "set (snd (check_members_loop u d now ms fr fk)) =
     set fk \<union> {m \<in> set ms. spec_action (cog_policy u d) now m = NeedsRemoval}"
proof (induction ms arbitrary: fr fk)
  case Nil
  show ?case by simp
next
  case (Cons m ms)
  show ?case
    unfolding check_members_loop_step Cons.IH
    by (auto simp: set_set_add)
qed

lemma check_members_loop_distinct:
  "distinct fr \<Longrightarrow> distinct fk \<Longrightarrow>
   distinct (fst (check_members_loop u d now ms fr fk)) \<and>
   distinct (snd (check_members_loop u d now ms fr fk))"
proof (induction ms arbitrary: fr fk)
  case Nil
  then show ?case by simp
next
  case (Cons m ms)
  show ?case
    unfolding check_members_loop_step
    by (rule Cons.IH) (simp_all add: distinct_set_add Cons.prems)
qed

lemma set_for_role:
  "set (fst (check_members u d now ms)) =
     {m \<in> set ms. spec_action (cog_policy u d) now m = NeedsWarning}"
  by (simp add: check_members_def check_members_loop_for_role)

lemma set_for_kick:
  "set (snd (check_members u d now ms)) =
     {m \<in> set ms. spec_action (cog_policy u d) now m = NeedsRemoval}"
  by (simp add: check_members_def check_members_loop_for_kick)

lemma distinct_check_members:
  "distinct (fst (check_members u d now ms)) \<and> distinct (snd (check_members u d now ms))"
  by (simp add: check_members_def check_members_loop_distinct)

lemma check_members_ex:
  "check_members 7 0 ex_now ex_members = ([ex_late], [ex_overdue])"
  by (simp add: check_members_def ex_member_defs timedelta_days_def KICKED_AFTER_def
      UNVERIFIED_AFTER_def set_add_def Let_def)

section \<open>Claims about the classifier\<close>

text \<open>
  C1. The classifier \<^verbatim>\<open>_check_members\<close> equals the reference definition of the
  specification, for every list of members and every current time. A member lands in
  \<^verbatim>\<open>for_role\<close> exactly when the reference action is \<open>NeedsWarning\<close> and in
  \<^verbatim>\<open>for_kick\<close> exactly when it is \<open>NeedsRemoval\<close>, and the identifiers of the two
  sets are the pair that \<open>classify\<close> returns. Spelled out: a bot, a member without join
  time and a member holding a role other than the pending and the default role are in
  neither set; for the others, with \<open>elapsed = now - joinTime\<close>, the member is in
  \<^verbatim>\<open>for_kick\<close> iff \<open>elapsed\<close> exceeds 30 days, and in \<^verbatim>\<open>for_role\<close> iff \<open>elapsed\<close>
  is at most 30 days, exceeds 3 days, and the pending role is not held. The comparisons
  are strict: a member whose \<open>elapsed\<close> is exactly 3 days is in neither set.
\<close>

theorem check_members_refines_classify:
  fixes u d :: role and now :: datetime and ms :: "member list"
  defines "for_role \<equiv> set (fst (check_members u d now ms))"
    and "for_kick \<equiv> set (snd (check_members u d now ms))"
  shows "for_role = {m \<in> set ms. spec_action (cog_policy u d) now m = NeedsWarning}
    \<and> for_kick = {m \<in> set ms. spec_action (cog_policy u d) now m = NeedsRemoval}
    \<and> (m_id ` for_role, m_id ` for_kick) = classify ms now (cog_policy u d)
    \<and> (\<forall>m. m_bot m \<or> m_joined_at m = None \<or> \<not> set (m_roles m) \<subseteq> {u, d}
           \<longrightarrow> m \<notin> for_role \<and> m \<notin> for_kick)
    \<and> (\<forall>m joinTime. m \<in> set ms \<and> \<not> m_bot m \<and> m_joined_at m = Some joinTime
             \<and> set (m_roles m) \<subseteq> {u, d}
           \<longrightarrow> (m \<in> for_kick \<longleftrightarrow> now - joinTime > 30 * 86400000000)
             \<and> (m \<in> for_role \<longleftrightarrow> now - joinTime \<le> 30 * 86400000000
                   \<and> now - joinTime > 3 * 86400000000 \<and> u \<notin> set (m_roles m)))
    \<and> (\<forall>m joinTime. m_joined_at m = Some joinTime \<and> now - joinTime = 3 * 86400000000
           \<longrightarrow> m \<notin> for_role \<and> m \<notin> for_kick)"
proof -
  have fr: "for_role = {m \<in> set ms. spec_action (cog_policy u d) now m = NeedsWarning}"
    unfolding for_role_def by (rule set_for_role)
  have fk: "for_kick = {m \<in> set ms. spec_action (cog_policy u d) now m = NeedsRemoval}"
    unfolding for_kick_def by (rule set_for_kick)
  have ids: "(m_id ` for_role, m_id ` for_kick) = classify ms now (cog_policy u d)"
    by (simp add: fr fk classify_def)
  have unv: "spec_unverified (cog_policy u d) m \<longleftrightarrow> set (m_roles m) \<subseteq> {u, d}" for m
    by (auto simp: spec_unverified_def cog_policy_def)
  have pol: "removalAfter (cog_policy u d) = 30 * 86400000000"
    "warningAfter (cog_policy u d) = 3 * 86400000000"
    "pendingRoleId (cog_policy u d) = u"
    by (simp_all add: cog_policy_def timedelta_days_def)
  have skip: "m \<notin> for_role \<and> m \<notin> for_kick"
    if "m_bot m \<or> m_joined_at m = None \<or> \<not> set (m_roles m) \<subseteq> {u, d}" for m
    using that by (auto simp: fr fk spec_action_def unv split: option.splits)
  have elig: "(m \<in> for_kick \<longleftrightarrow> now - j > 30 * 86400000000)
      \<and> (m \<in> for_role \<longleftrightarrow> now - j \<le> 30 * 86400000000
            \<and> now - j > 3 * 86400000000 \<and> u \<notin> set (m_roles m))"
    if "m \<in> set ms" "\<not> m_bot m" "m_joined_at m = Some j" "set (m_roles m) \<subseteq> {u, d}"
    for m j
    using that by (simp add: fr fk spec_action_def unv pol)
  have edge: "m \<notin> for_role \<and> m \<notin> for_kick"
    if "m_joined_at m = Some j" "now - j = 3 * 86400000000" for m j
    using that by (simp add: fr fk spec_action_def pol)
  show ?thesis
    using fr fk ids skip elig edge by blast
qed

theorem check_members_refines_classify_witness:
  "set (fst (check_members 7 0 ex_now ex_members)) = {ex_late}
   \<and> set (snd (check_members 7 0 ex_now ex_members)) = {ex_overdue}
   \<and> classify ex_members ex_now (cog_policy 7 0) = ({5}, {4})
   \<and> ex_boundary \<notin> set (fst (check_members 7 0 ex_now ex_members))
   \<and> ex_boundary \<notin> set (snd (check_members 7 0 ex_now ex_members))"
proof -
  note t = check_members_refines_classify [of 7 0 ex_now ex_members]
  have sets: "set (fst (check_members 7 0 ex_now ex_members)) = {ex_late}"
    "set (snd (check_members 7 0 ex_now ex_members)) = {ex_overdue}"
    by (simp_all add: check_members_ex)
  from t have "(m_id ` set (fst (check_members 7 0 ex_now ex_members)),
      m_id ` set (snd (check_members 7 0 ex_now ex_members)))
      = classify ex_members ex_now (cog_policy 7 0)"
    by blast
  then have ids: "classify ex_members ex_now (cog_policy 7 0) = ({5}, {4})"
    by (simp add: sets ex_late_def ex_overdue_def)
  have j: "m_joined_at ex_boundary = Some (timedelta_days 97)
      \<and> ex_now - timedelta_days 97 = 3 * 86400000000"
    by (simp add: ex_boundary_def ex_now_def timedelta_days_def)
  from t have "\<forall>m joinTime. m_joined_at m = Some joinTime
        \<and> ex_now - joinTime = 3 * 86400000000
      \<longrightarrow> m \<notin> set (fst (check_members 7 0 ex_now ex_members))
        \<and> m \<notin> set (snd (check_members 7 0 ex_now ex_members))"
    by blast
  with j have edge: "ex_boundary \<notin> set (fst (check_members 7 0 ex_now ex_members))
      \<and> ex_boundary \<notin> set (snd (check_members 7 0 ex_now ex_members))"
    by blast
  show ?thesis
    using sets ids edge by simp
qed

text \<open>
  C2. The two sets of one classification pass are disjoint. No member is in both; and
  since the members of a guild have pairwise different identifiers, no identifier is in
  both.
\<close>

theorem check_members_disjoint:
  "set (fst (check_members u d now ms)) \<inter> set (snd (check_members u d now ms)) = {}
   \<and> (distinct (map m_id ms) \<longrightarrow>
        m_id ` set (fst (check_members u d now ms))
        \<inter> m_id ` set (snd (check_members u d now ms)) = {})"
proof (intro conjI impI)
  show obj: "set (fst (check_members u d now ms)) \<inter> set (snd (check_members u d now ms)) = {}"
    by (auto simp: set_for_role set_for_kick)
  assume "distinct (map m_id ms)"
  then have inj: "inj_on m_id (set ms)"
    by (simp add: distinct_map)
  have sub: "set (fst (check_members u d now ms)) \<subseteq> set ms"
    "set (snd (check_members u d now ms)) \<subseteq> set ms"
    by (auto simp: set_for_role set_for_kick)
  have "m_id ` set (fst (check_members u d now ms))
        \<inter> m_id ` set (snd (check_members u d now ms))
        = m_id ` (set (fst (check_members u d now ms)) \<inter> set (snd (check_members u d now ms)))"
    using inj sub by (rule inj_on_image_Int [symmetric])
  then show "m_id ` set (fst (check_members u d now ms))
        \<inter> m_id ` set (snd (check_members u d now ms)) = {}"
    by (simp add: obj)
qed

theorem check_members_disjoint_witness:
  "distinct (map m_id ex_members)
   \<and> m_id ` set (fst (check_members 7 0 ex_now ex_members))
     \<inter> m_id ` set (snd (check_members 7 0 ex_now ex_members)) = {}
   \<and> set (fst (check_members 7 0 ex_now ex_members)) = {ex_late}
   \<and> set (snd (check_members 7 0 ex_now ex_members)) = {ex_overdue}"
proof -
  have d: "distinct (map m_id ex_members)"
    by (simp add: ex_member_defs)
  show ?thesis
    using d check_members_disjoint [of 7 0 ex_now ex_members]
    by (simp add: check_members_ex)
qed

section \<open>Properties of the executor\<close>

lemma caught_status_None_iff: "caught_status exc = None \<longleftrightarrow> (\<forall>status. exc \<noteq> HTTPException status)"
  by (cases exc) simp_all

lemma kick_members_loop_http:
  "k m = Inl (HTTPException s) \<Longrightarrow>
   kick_members_loop k (m # ms) n bad =
     (fst (kick_members_loop k ms n (set_add s bad)),
      Kick m # snd (kick_members_loop k ms n (set_add s bad)))"
  by (simp add: case_prod_beta)

lemma kick_members_loop_ok:
  "k m = Inr u \<Longrightarrow>
   kick_members_loop k (m # ms) n bad =
     (fst (kick_members_loop k ms (n + 1) bad), Kick m # snd (kick_members_loop k ms (n + 1) bad))"
  by (simp add: case_prod_beta)

lemma kick_members_loop_other:
  "k m = Inl exc \<Longrightarrow> caught_status exc = None \<Longrightarrow>
   kick_members_loop k (m # ms) n bad = (Inl exc, [Kick m])"
  by simp

lemma give_role_loop_http:
  "k m = Inl (HTTPException s) \<Longrightarrow>
   give_role_loop k r (m # ms) n bad =
     (fst (give_role_loop k r ms n (set_add s bad)),
      Add_roles m r # snd (give_role_loop k r ms n (set_add s bad)))"
  by (simp add: case_prod_beta)

lemma give_role_loop_ok:
  "k m = Inr u \<Longrightarrow>
   give_role_loop k r (m # ms) n bad =
     (fst (give_role_loop k r ms (n + 1) bad),
      Add_roles m r # snd (give_role_loop k r ms (n + 1) bad))"
  by (simp add: case_prod_beta)

lemma give_role_loop_other:
  "k m = Inl exc \<Longrightarrow> caught_status exc = None \<Longrightarrow>
   give_role_loop k r (m # ms) n bad = (Inl exc, [Add_roles m r])"
  by simp

declare kick_members_loop.simps(2) [simp del] give_role_loop.simps(2) [simp del]

text \<open>The requests of a batch raise nothing but \<^verbatim>\<open>discord.HTTPException\<close>.\<close>

lemma kick_members_loop_tolerant:
  assumes "\<forall>m \<in> set ms. \<forall>exc. k m = Inl exc \<longrightarrow> (\<exists>status. exc = HTTPException status)"
  shows "\<exists>bad'. kick_members_loop k ms n bad =
           (Inr (n + length (filter (\<lambda>m. \<not> isl (k m)) ms), bad'), map Kick ms)
         \<and> set bad' = set bad \<union> {s. \<exists>m \<in> set ms. k m = Inl (HTTPException s)}
         \<and> (distinct bad \<longrightarrow> distinct bad')"
  using assms
proof (induction ms arbitrary: n bad)
  case Nil
  then show ?case by simp
next
  case (Cons m ms)
  from Cons.prems
  have rest: "\<forall>m \<in> set ms. \<forall>exc. k m = Inl exc \<longrightarrow> (\<exists>status. exc = HTTPException status)"
    by simp
  show ?case
  proof (cases "k m")
    case (Inr u)
    from Cons.IH [OF rest, of "n + 1" bad] obtain bad' where
      "kick_members_loop k ms (n + 1) bad =
         (Inr (n + 1 + length (filter (\<lambda>m. \<not> isl (k m)) ms), bad'), map Kick ms)"
      "set bad' = set bad \<union> {s. \<exists>m \<in> set ms. k m = Inl (HTTPException s)}"
      "distinct bad \<longrightarrow> distinct bad'"
      by blast
    with Inr show ?thesis
      by (auto simp: kick_members_loop_ok [where k = k and m = m, OF Inr])
  next
    case (Inl exc)
    with Cons.prems obtain s where s: "k m = Inl (HTTPException s)"
      by auto
    from Cons.IH [OF rest, of n "set_add s bad"] obtain bad' where
      "kick_members_loop k ms n (set_add s bad) =
         (Inr (n + length (filter (\<lambda>m. \<not> isl (k m)) ms), bad'), map Kick ms)"
      "set bad' = set (set_add s bad) \<union> {s. \<exists>m \<in> set ms. k m = Inl (HTTPException s)}"
      "distinct (set_add s bad) \<longrightarrow> distinct bad'"
      by blast
    with s show ?thesis
      by (auto simp: kick_members_loop_http [where k = k and m = m, OF s] set_set_add distinct_set_add)
  qed
qed

lemma give_role_loop_tolerant:
  assumes "\<forall>m \<in> set ms. \<forall>exc. k m = Inl exc \<longrightarrow> (\<exists>status. exc = HTTPException status)"
  shows "\<exists>bad'. give_role_loop k r ms n bad =
           (Inr (n + length (filter (\<lambda>m. \<not> isl (k m)) ms), bad'), map (\<lambda>m. Add_roles m r) ms)
         \<and> set bad' = set bad \<union> {s. \<exists>m \<in> set ms. k m = Inl (HTTPException s)}
         \<and> (distinct bad \<longrightarrow> distinct bad')"
  using assms
proof (induction ms arbitrary: n bad)
  case Nil
  then show ?case by simp
next
  case (Cons m ms)
  from Cons.prems
  have rest: "\<forall>m \<in> set ms. \<forall>exc. k m = Inl exc \<longrightarrow> (\<exists>status. exc = HTTPException status)"
    by simp
  show ?case
  proof (cases "k m")
    case (Inr u)
    from Cons.IH [OF rest, of "n + 1" bad] obtain bad' where
      "give_role_loop k r ms (n + 1) bad =
         (Inr (n + 1 + length (filter (\<lambda>m. \<not> isl (k m)) ms), bad'),
          map (\<lambda>m. Add_roles m r) ms)"
      "set bad' = set bad \<union> {s. \<exists>m \<in> set ms. k m = Inl (HTTPException s)}"
      "distinct bad \<longrightarrow> distinct bad'"
      by blast
    with Inr show ?thesis
      by (auto simp: give_role_loop_ok [where k = k and m = m, OF Inr])
  next
    case (Inl exc)
    with Cons.prems obtain s where s: "k m = Inl (HTTPException s)"
      by auto
    from Cons.IH [OF rest, of n "set_add s bad"] obtain bad' where
      "give_role_loop k r ms n (set_add s bad) =
         (Inr (n + length (filter (\<lambda>m. \<not> isl (k m)) ms), bad'), map (\<lambda>m. Add_roles m r) ms)"
      "set bad' = set (set_add s bad) \<union> {s. \<exists>m \<in> set ms. k m = Inl (HTTPException s)}"
      "distinct (set_add s bad) \<longrightarrow> distinct bad'"
      by blast
    with s show ?thesis
      by (auto simp: give_role_loop_http [where k = k and m = m, OF s] set_set_add distinct_set_add)
  qed
qed

text \<open>A request raises another exception after a tolerated prefix of the batch.\<close>

lemma kick_members_loop_abort:
  assumes "\<forall>x \<in> set pre. \<forall>e. k x = Inl e \<longrightarrow> (\<exists>status. e = HTTPException status)"
    and "k m = Inl exc" and "\<forall>status. exc \<noteq> HTTPException status"
  shows "kick_members_loop k (pre @ m # post) n bad = (Inl exc, map Kick (pre @ [m]))"
  using assms(1)
proof (induction pre arbitrary: n bad)
  case Nil
  show ?case
    using assms(2,3) by (simp add: kick_members_loop_other caught_status_None_iff)
next
  case (Cons x pre)
  then have rest: "\<forall>x \<in> set pre. \<forall>e. k x = Inl e \<longrightarrow> (\<exists>status. e = HTTPException status)"
    by simp
  show ?case
  proof (cases "k x")
    case (Inr u)
    show ?thesis
      by (simp add: kick_members_loop_ok [where k = k and m = x, OF Inr] Cons.IH [OF rest])
  next
    case (Inl e)
    with Cons.prems obtain s where s: "k x = Inl (HTTPException s)"
      by auto
    show ?thesis
      by (simp add: kick_members_loop_http [where k = k and m = x, OF s] Cons.IH [OF rest])
  qed
qed

lemma give_role_loop_abort:
  assumes "\<forall>x \<in> set pre. \<forall>e. k x = Inl e \<longrightarrow> (\<exists>status. e = HTTPException status)"
    and "k m = Inl exc" and "\<forall>status. exc \<noteq> HTTPException status"
  shows "give_role_loop k r (pre @ m # post) n bad =
    (Inl exc, map (\<lambda>m. Add_roles m r) (pre @ [m]))"
  using assms(1)
proof (induction pre arbitrary: n bad)
  case Nil
  show ?case
    using assms(2,3) by (simp add: give_role_loop_other caught_status_None_iff)
next
  case (Cons x pre)
  then have rest: "\<forall>x \<in> set pre. \<forall>e. k x = Inl e \<longrightarrow> (\<exists>status. e = HTTPException status)"
    by simp
  show ?case
  proof (cases "k x")
    case (Inr u)
    show ?thesis
      by (simp add: give_role_loop_ok [where k = k and m = x, OF Inr] Cons.IH [OF rest])
  next
    case (Inl e)
    with Cons.prems obtain s where s: "k x = Inl (HTTPException s)"
      by auto
    show ?thesis
      by (simp add: give_role_loop_http [where k = k and m = x, OF s] Cons.IH [OF rest])
  qed
qed

lemma length_filter_isl:
  "length (filter (\<lambda>m. \<not> isl (k m)) ms) = length ms - length (filter (\<lambda>m. isl (k m)) ms)"
  using sum_length_filter_compl [of "\<lambda>m. isl (k m)" ms] by simp

lemma distinct_singleton: "distinct xs \<Longrightarrow> set xs = {s} \<Longrightarrow> xs = [s]"
  by (cases xs) (auto simp: insert_eq_iff dest: subset_singletonD)


lemma filter_map_all:
  "(\<And>x. P (f x)) \<Longrightarrow> filter P (map f xs) = map f xs"
  by (induction xs) simp_all

lemma kick_members_tolerant:
  assumes "\<forall>m \<in> set ms. \<forall>exc. k m = Inl exc \<longrightarrow> (\<exists>status. exc = HTTPException status)"
  shows "\<exists>bad. fst (kick_members_loop k ms 0 []) =
             Inr (length (filter (\<lambda>m. \<not> isl (k m)) ms), bad)
         \<and> distinct bad \<and> set bad = {s. \<exists>m \<in> set ms. k m = Inl (HTTPException s)}
         \<and> kick_members k ms =
             (Inr (length (filter (\<lambda>m. \<not> isl (k m)) ms)),
              Log (Kicking_members (length ms)) # map Kick ms
              @ (if bad \<noteq> []
                 then [Log (Failed_to_kick (length (filter (\<lambda>m. isl (k m)) ms)) bad)]
                 else []))"
proof -
  from kick_members_loop_tolerant [OF assms, of 0 "[]"] obtain bad where
    l: "kick_members_loop k ms 0 [] =
         (Inr (length (filter (\<lambda>m. \<not> isl (k m)) ms), bad), map Kick ms)"
    and b: "set bad = {s. \<exists>m \<in> set ms. k m = Inl (HTTPException s)}" "distinct bad"
    by auto
  show ?thesis
    using b length_filter_isl [of k ms] by (simp add: kick_members_def l)
qed

lemma give_role_tolerant:
  assumes "\<forall>m \<in> set ms. \<forall>exc. k m = Inl exc \<longrightarrow> (\<exists>status. exc = HTTPException status)"
  shows "\<exists>bad. fst (give_role_loop k r ms 0 []) =
             Inr (length (filter (\<lambda>m. \<not> isl (k m)) ms), bad)
         \<and> distinct bad \<and> set bad = {s. \<exists>m \<in> set ms. k m = Inl (HTTPException s)}
         \<and> give_role k ms r =
             (Inr (length (filter (\<lambda>m. \<not> isl (k m)) ms)),
              Log (Assigning_role r (length ms)) # map (\<lambda>m. Add_roles m r) ms
              @ (if bad \<noteq> []
                 then [Log (Failed_to_assign (length (filter (\<lambda>m. isl (k m)) ms)) bad)]
                 else []))"
proof -
  from give_role_loop_tolerant [OF assms, of r 0 "[]"] obtain bad where
    l: "give_role_loop k r ms 0 [] =
         (Inr (length (filter (\<lambda>m. \<not> isl (k m)) ms), bad), map (\<lambda>m. Add_roles m r) ms)"
    and b: "set bad = {s. \<exists>m \<in> set ms. k m = Inl (HTTPException s)}" "distinct bad"
    by auto
  show ?thesis
    using b length_filter_isl [of k ms] by (simp add: give_role_def l)
qed

lemma ex_ids:
  "m_id ex_bot = 1" "m_id ex_unknown = 2" "m_id ex_verified = 3" "m_id ex_overdue = 4"
  "m_id ex_late = 5" "m_id ex_pending = 6" "m_id ex_boundary = 7"
  by (simp_all add: ex_member_defs)

section \<open>Claims about the executor\<close>

text \<open>
  C5. The claim fails for a request that raises an exception other than
  \<^verbatim>\<open>discord.HTTPException\<close>: the handler of the loop names that class alone. In the
  example batch of five the request for the third member raises
  \<^verbatim>\<open>ConnectionResetError\<close>; the exception leaves \<^verbatim>\<open>_kick_members\<close> and
  \<^verbatim>\<open>_give_role\<close>, the fourth and the fifth member are never requested, and no count
  is returned.
\<close>

theorem executor_aborts_on_other_exception:
  "kick_members ex_request_broken ex_batch =
     (Inl (Other_exception ''ConnectionResetError''),
      [Log (Kicking_members 5), Kick ex_bot, Kick ex_unknown, Kick ex_verified])
   \<and> give_role ex_request_broken ex_batch 7 =
     (Inl (Other_exception ''ConnectionResetError''),
      [Log (Assigning_role 7 5), Add_roles ex_bot 7, Add_roles ex_unknown 7,
       Add_roles ex_verified 7])"
  by (simp add: kick_members_def give_role_def ex_batch_def ex_request_broken_def ex_ids
      kick_members_loop.simps(2) give_role_loop.simps(2))

text \<open>
  C5, amended. Let every request of the batch either succeed or raise
  \<^verbatim>\<open>discord.HTTPException\<close>. Then, in whatever order the batch is iterated,
  \<^verbatim>\<open>_kick_members\<close> and \<^verbatim>\<open>_give_role\<close> make one request per member of the batch, in
  order and whatever the earlier requests answered, and return the number of requests
  that succeeded. The statuses of the failed requests are collected without repetition
  in \<^verbatim>\<open>bad_statuses\<close>, which holds exactly the statuses that occurred and, when it is
  not empty, is written to the log as the last step together with the number of
  failures. For a batch of 5 of which 2 fail with one and the same status, the count is
  3 and \<^verbatim>\<open>bad_statuses\<close> has that single element.

  An exception of another class is not caught: the first request that raises one ends
  the function with that exception, after the requests for the members before it and
  for this one, and before any request for the members after it.
\<close>

theorem executor_tolerates_http_failures:
  fixes k :: "member \<Rightarrow> error + unit" and ms :: "member list" and r :: role
  shows "((\<forall>m \<in> set ms. \<forall>exc. k m = Inl exc \<longrightarrow> (\<exists>status. exc = HTTPException status)) \<longrightarrow>
      fst (kick_members k ms) = Inr (length (filter (\<lambda>m. \<not> isl (k m)) ms))
      \<and> filter is_kick (snd (kick_members k ms)) = map Kick ms
      \<and> (\<exists>bad_statuses.
            fst (kick_members_loop k ms 0 []) =
              Inr (length (filter (\<lambda>m. \<not> isl (k m)) ms), bad_statuses)
            \<and> distinct bad_statuses
            \<and> set bad_statuses = {s. \<exists>m \<in> set ms. k m = Inl (HTTPException s)}
            \<and> (bad_statuses \<noteq> [] \<longrightarrow>
                 last (snd (kick_members k ms)) =
                   Log (Failed_to_kick (length (filter (\<lambda>m. isl (k m)) ms)) bad_statuses)))
      \<and> fst (give_role k ms r) = Inr (length (filter (\<lambda>m. \<not> isl (k m)) ms))
      \<and> filter is_add_roles (snd (give_role k ms r)) = map (\<lambda>m. Add_roles m r) ms
      \<and> (\<exists>bad_statuses.
            fst (give_role_loop k r ms 0 []) =
              Inr (length (filter (\<lambda>m. \<not> isl (k m)) ms), bad_statuses)
            \<and> distinct bad_statuses
            \<and> set bad_statuses = {s. \<exists>m \<in> set ms. k m = Inl (HTTPException s)}
            \<and> (bad_statuses \<noteq> [] \<longrightarrow>
                 last (snd (give_role k ms r)) =
                   Log (Failed_to_assign (length (filter (\<lambda>m. isl (k m)) ms)) bad_statuses))))
    \<and> (\<forall>s. length ms = 5 \<and> length (filter (\<lambda>m. isl (k m)) ms) = 2
            \<and> (\<forall>m \<in> set ms. isl (k m) \<longrightarrow> k m = Inl (HTTPException s))
          \<longrightarrow> fst (kick_members k ms) = Inr 3
            \<and> fst (kick_members_loop k ms 0 []) = Inr (3, [s])
            \<and> fst (give_role k ms r) = Inr 3
            \<and> fst (give_role_loop k r ms 0 []) = Inr (3, [s]))
    \<and> (\<forall>pre m post exc.
          ms = pre @ m # post
          \<and> (\<forall>x \<in> set pre. \<forall>e. k x = Inl e \<longrightarrow> (\<exists>status. e = HTTPException status))
          \<and> k m = Inl exc \<and> (\<forall>status. exc \<noteq> HTTPException status)
          \<longrightarrow> fst (kick_members k ms) = Inl exc
            \<and> filter is_kick (snd (kick_members k ms)) = map Kick (pre @ [m])
            \<and> fst (give_role k ms r) = Inl exc
            \<and> filter is_add_roles (snd (give_role k ms r))
                = map (\<lambda>m. Add_roles m r) (pre @ [m]))"
proof (intro conjI allI impI)
  assume h: "\<forall>m \<in> set ms. \<forall>exc. k m = Inl exc \<longrightarrow> (\<exists>status. exc = HTTPException status)"
  from kick_members_tolerant [OF h] obtain kb where kb:
    "fst (kick_members_loop k ms 0 []) = Inr (length (filter (\<lambda>m. \<not> isl (k m)) ms), kb)"
    "distinct kb" "set kb = {s. \<exists>m \<in> set ms. k m = Inl (HTTPException s)}"
    "kick_members k ms =
       (Inr (length (filter (\<lambda>m. \<not> isl (k m)) ms)),
        Log (Kicking_members (length ms)) # map Kick ms
        @ (if kb \<noteq> [] then [Log (Failed_to_kick (length (filter (\<lambda>m. isl (k m)) ms)) kb)]
           else []))"
    by blast
  from give_role_tolerant [OF h, of r] obtain rb where rb:
    "fst (give_role_loop k r ms 0 []) = Inr (length (filter (\<lambda>m. \<not> isl (k m)) ms), rb)"
    "distinct rb" "set rb = {s. \<exists>m \<in> set ms. k m = Inl (HTTPException s)}"
    "give_role k ms r =
       (Inr (length (filter (\<lambda>m. \<not> isl (k m)) ms)),
        Log (Assigning_role r (length ms)) # map (\<lambda>m. Add_roles m r) ms
        @ (if rb \<noteq> [] then [Log (Failed_to_assign (length (filter (\<lambda>m. isl (k m)) ms)) rb)]
           else []))"
    by blast
  show "fst (kick_members k ms) = Inr (length (filter (\<lambda>m. \<not> isl (k m)) ms))"
    by (simp add: kb(4))
  show "filter is_kick (snd (kick_members k ms)) = map Kick ms"
    by (simp add: kb(4) filter_map_all)
  show "\<exists>bad_statuses.
      fst (kick_members_loop k ms 0 []) =
        Inr (length (filter (\<lambda>m. \<not> isl (k m)) ms), bad_statuses)
      \<and> distinct bad_statuses
      \<and> set bad_statuses = {s. \<exists>m \<in> set ms. k m = Inl (HTTPException s)}
      \<and> (bad_statuses \<noteq> [] \<longrightarrow>
           last (snd (kick_members k ms)) =
             Log (Failed_to_kick (length (filter (\<lambda>m. isl (k m)) ms)) bad_statuses))"
    using kb(1-3) by (intro exI [of _ kb]) (simp add: kb(4))
  show "fst (give_role k ms r) = Inr (length (filter (\<lambda>m. \<not> isl (k m)) ms))"
    by (simp add: rb(4))
  show "filter is_add_roles (snd (give_role k ms r)) = map (\<lambda>m. Add_roles m r) ms"
    by (simp add: rb(4) filter_map_all)
  show "\<exists>bad_statuses.
      fst (give_role_loop k r ms 0 []) =
        Inr (length (filter (\<lambda>m. \<not> isl (k m)) ms), bad_statuses)
      \<and> distinct bad_statuses
      \<and> set bad_statuses = {s. \<exists>m \<in> set ms. k m = Inl (HTTPException s)}
      \<and> (bad_statuses \<noteq> [] \<longrightarrow>
           last (snd (give_role k ms r)) =
             Log (Failed_to_assign (length (filter (\<lambda>m. isl (k m)) ms)) bad_statuses))"
    using rb(1-3) by (intro exI [of _ rb]) (simp add: rb(4))
next
  fix s
  assume a: "length ms = 5 \<and> length (filter (\<lambda>m. isl (k m)) ms) = 2
      \<and> (\<forall>m \<in> set ms. isl (k m) \<longrightarrow> k m = Inl (HTTPException s))"
  then have h: "\<forall>m \<in> set ms. \<forall>exc. k m = Inl exc \<longrightarrow> (\<exists>status. exc = HTTPException status)"
    by (metis sum.disc(1) sum.inject(1))
  from a have "filter (\<lambda>m. isl (k m)) ms \<noteq> []" by auto
  then obtain m where "m \<in> set ms" "isl (k m)"
    by (auto simp: filter_empty_conv)
  with a have one: "{s'. \<exists>m \<in> set ms. k m = Inl (HTTPException s')} = {s}"
    by (auto simp: isl_def)
  have three: "length (filter (\<lambda>m. \<not> isl (k m)) ms) = 3"
    using a by (simp add: length_filter_isl)
  from kick_members_tolerant [OF h] obtain kb where kb:
    "fst (kick_members_loop k ms 0 []) = Inr (length (filter (\<lambda>m. \<not> isl (k m)) ms), kb)"
    "distinct kb" "set kb = {s. \<exists>m \<in> set ms. k m = Inl (HTTPException s)}"
    "fst (kick_members k ms) = Inr (length (filter (\<lambda>m. \<not> isl (k m)) ms))"
    by force
  from give_role_tolerant [OF h, of r] obtain rb where rb:
    "fst (give_role_loop k r ms 0 []) = Inr (length (filter (\<lambda>m. \<not> isl (k m)) ms), rb)"
    "distinct rb" "set rb = {s. \<exists>m \<in> set ms. k m = Inl (HTTPException s)}"
    "fst (give_role k ms r) = Inr (length (filter (\<lambda>m. \<not> isl (k m)) ms))"
    by force
  have "kb = [s]" "rb = [s]"
    using kb(2,3) rb(2,3) one by (simp_all add: distinct_singleton)
  then show "fst (kick_members k ms) = Inr 3"
    "fst (kick_members_loop k ms 0 []) = Inr (3, [s])"
    "fst (give_role k ms r) = Inr 3"
    "fst (give_role_loop k r ms 0 []) = Inr (3, [s])"
    using kb(1,4) rb(1,4) three by simp_all
next
  fix pre m post exc
  assume a: "ms = pre @ m # post
      \<and> (\<forall>x \<in> set pre. \<forall>e. k x = Inl e \<longrightarrow> (\<exists>status. e = HTTPException status))
      \<and> k m = Inl exc \<and> (\<forall>status. exc \<noteq> HTTPException status)"
  then have ms: "ms = pre @ m # post"
    and pre: "\<forall>x \<in> set pre. \<forall>e. k x = Inl e \<longrightarrow> (\<exists>status. e = HTTPException status)"
    and m: "k m = Inl exc" and exc: "\<forall>status. exc \<noteq> HTTPException status"
    by simp_all
  note kl = kick_members_loop_abort [OF pre m exc, of post 0 "[]"]
  note rl = give_role_loop_abort [OF pre m exc, of r post 0 "[]"]
  show "fst (kick_members k ms) = Inl exc"
    by (simp add: kick_members_def ms kl)
  show "filter is_kick (snd (kick_members k ms)) = map Kick (pre @ [m])"
    using filter_map_all [of is_kick Kick pre] by (simp add: kick_members_def ms kl)
  show "fst (give_role k ms r) = Inl exc"
    by (simp add: give_role_def ms rl)
  show "filter is_add_roles (snd (give_role k ms r)) = map (\<lambda>m. Add_roles m r) (pre @ [m])"
    using filter_map_all [of is_add_roles "\<lambda>m. Add_roles m r" pre]
    by (simp add: give_role_def ms rl)
qed

lemma ex_batch_requests:
  "length ex_batch = 5"
  "filter (\<lambda>m. isl (http_request ex_request m)) ex_batch = [ex_unknown, ex_late]"
  "http_request ex_request ex_unknown = Inl (HTTPException 403)"
  "http_request ex_request ex_late = Inl (HTTPException 403)"
  by (simp_all add: ex_batch_def http_request_def ex_request_def ex_ids)

theorem executor_tolerates_http_failures_witness:
  "length ex_batch = 5
   \<and> length (filter (\<lambda>m. isl (http_request ex_request m)) ex_batch) = 2
   \<and> fst (kick_members (http_request ex_request) ex_batch) = Inr 3
   \<and> fst (kick_members_loop (http_request ex_request) ex_batch 0 []) = Inr (3, [403])
   \<and> fst (give_role (http_request ex_request) ex_batch 7) = Inr 3
   \<and> fst (give_role_loop (http_request ex_request) 7 ex_batch 0 []) = Inr (3, [403])
   \<and> ex_batch = [ex_bot, ex_unknown] @ ex_verified # [ex_overdue, ex_late]
   \<and> fst (kick_members ex_request_broken ex_batch)
       = Inl (Other_exception ''ConnectionResetError'')
   \<and> filter is_kick (snd (kick_members ex_request_broken ex_batch))
       = [Kick ex_bot, Kick ex_unknown, Kick ex_verified]"
proof -
  have same: "\<forall>m \<in> set ex_batch. isl (http_request ex_request m)
      \<longrightarrow> http_request ex_request m = Inl (HTTPException 403)"
    by (simp add: ex_batch_def http_request_def ex_request_def)
  have hyp: "length ex_batch = 5
      \<and> length (filter (\<lambda>m. isl (http_request ex_request m)) ex_batch) = 2
      \<and> (\<forall>m \<in> set ex_batch. isl (http_request ex_request m)
            \<longrightarrow> http_request ex_request m = Inl (HTTPException 403))"
    using same by (simp add: ex_batch_requests)
  note counted = executor_tolerates_http_failures [where k = "http_request ex_request"
      and ms = ex_batch and r = 7,
      THEN conjunct2, THEN conjunct1, rule_format, OF hyp]
  have split: "ex_batch = [ex_bot, ex_unknown] @ ex_verified # [ex_overdue, ex_late]"
    by (simp add: ex_batch_def)
  have broken: "ex_batch = [ex_bot, ex_unknown] @ ex_verified # [ex_overdue, ex_late]
      \<and> (\<forall>x \<in> set [ex_bot, ex_unknown]. \<forall>e. ex_request_broken x = Inl e
            \<longrightarrow> (\<exists>status. e = HTTPException status))
      \<and> ex_request_broken ex_verified = Inl (Other_exception ''ConnectionResetError'')
      \<and> (\<forall>status. Other_exception ''ConnectionResetError'' \<noteq> HTTPException status)"
    by (simp add: split ex_request_broken_def ex_ids)
  note aborted = executor_tolerates_http_failures [where k = ex_request_broken
      and ms = ex_batch and r = 7,
      THEN conjunct2, THEN conjunct2, rule_format, OF broken]
  show ?thesis
    using hyp counted aborted split by simp
qed

section \<open>Properties of the gate\<close>

lemma verify_kick_zero:
  "gate_members e = [] \<Longrightarrow>
   verify_kick thr e n = (Inl ZeroDivisionError, [Log (Checking_whether_safe_to_kick n)])"
  by (simp add: verify_kick_def)

lemma verify_kick_auto:
  "gate_members e \<noteq> [] \<Longrightarrow> percentage e n < thr \<Longrightarrow>
   verify_kick thr e n =
     (Inr True, [Log (Checking_whether_safe_to_kick n), Log (Seen_as_safe (percentage e n))])"
  by (simp add: verify_kick_def percentage_def Let_def)

lemma verify_kick_timeout:
  "gate_members e \<noteq> [] \<Longrightarrow> \<not> percentage e n < thr \<Longrightarrow> qualifying_response e = None \<Longrightarrow>
   verify_kick thr e n =
     (Inr False,
      prompt_events e n (percentage e n)
      @ [Log Staff_prompt_not_answered, Clear_reactions (prompt_id e)])"
  by (simp add: verify_kick_def percentage_def qualifying_response_def Let_def)

lemma verify_kick_answer:
  "gate_members e \<noteq> [] \<Longrightarrow> \<not> percentage e n < thr \<Longrightarrow> qualifying_response e = Some c \<Longrightarrow>
   verify_kick thr e n =
     (Inr (r_emoji c = incident_actioned e),
      prompt_events e n (percentage e n)
      @ [Clear_reactions (prompt_id e),
         Log (Received_answer (r_emoji c) (r_emoji c = incident_actioned e)),
         Edit_prompt (prompt_id e) n
           (if r_emoji c = incident_actioned e then ''authorized'' else ''denied'')])"
  by (simp add: verify_kick_def percentage_def qualifying_response_def Let_def)

lemma qualifying_response_check:
  "qualifying_response e = Some c \<Longrightarrow>
   check (prompt_id e) [incident_actioned e, incident_unactioned e] c \<and> c \<in> set (reactions e)"
  by (auto simp: qualifying_response_def find_Some_iff)

lemma has_wait_prompt_events: "has_wait (prompt_events e n p @ rest)"
  by (simp add: has_wait_def prompt_events_def)

lemma prompt_events_no_timeout_log:
  "Log Staff_prompt_not_answered \<notin> set (prompt_events e n p)"
  by (simp add: prompt_events_def)

lemma prompt_events_kinds:
  "filter is_prompt (prompt_events e n p) = [Send_prompt n p]"
  "filter is_wait (prompt_events e n p) = [Wait_for_reaction_add 300]"
  "filter is_edit (prompt_events e n p) = []"
  "filter is_clear (prompt_events e n p) = []"
  "filter is_kick (prompt_events e n p) = []"
  "filter is_gate_call (prompt_events e n p) = [Log (Checking_whether_safe_to_kick n)]"
  by (simp_all add: prompt_events_def)

lemma percentage_nonneg: "\<not> percentage e n < 0"
  by (simp add: percentage_def not_less)

lemma decision_of_True:
  "decision_of True evs = (if has_wait evs then HumanApproved else AutoApproved)"
  by (simp add: decision_of_def)



lemma authorize_auto:
  "gate_members e \<noteq> [] \<Longrightarrow> percentage e n < thr \<Longrightarrow> authorize thr e n = Inr AutoApproved"
  by (simp add: authorize_def verify_kick_auto decision_of_def has_wait_def)

lemma authorize_timeout:
  "gate_members e \<noteq> [] \<Longrightarrow> \<not> percentage e n < thr \<Longrightarrow> qualifying_response e = None \<Longrightarrow>
   authorize thr e n = Inr TimedOut"
  by (simp add: authorize_def verify_kick_timeout decision_of_def has_wait_prompt_events)

lemma authorize_answer:
  "gate_members e \<noteq> [] \<Longrightarrow> \<not> percentage e n < thr \<Longrightarrow> qualifying_response e = Some c \<Longrightarrow>
   authorize thr e n =
     Inr (if r_emoji c = incident_actioned e then HumanApproved else HumanDenied)"
  by (simp add: authorize_def verify_kick_answer decision_of_def has_wait_prompt_events
      prompt_events_no_timeout_log)

lemma ex_env_fields:
  "gate_members ex_env = ex_members" "prompt_id ex_env = 900"
  "incident_actioned ex_env = ''ok''" "incident_unactioned ex_env = ''no''"
  "reactions ex_env = ex_reactions" "members ex_env = ex_members"
  "unverified ex_env = 7" "default_role ex_env = 0" "current_dt ex_env = ex_now"
  "kick ex_env = ex_request" "add_roles ex_env = ex_request"
  by (simp_all add: ex_env_def)

lemma ex_members_nonempty: "ex_members \<noteq> []" "length ex_members = 7"
  by (simp_all add: ex_members_def)

lemma ex_qualifying_response:
  "qualifying_response ex_env = Some \<lparr>r_message_id = 900, r_emoji = ''no'', r_user_bot = False\<rparr>"
  by (simp add: qualifying_response_def ex_env_fields ex_reactions_def check_def)

lemma ex_qualifying_response_silent:
  "qualifying_response ex_env_silent = None"
  by (simp add: qualifying_response_def ex_env_silent_def ex_env_fields check_def)

lemma ex_percentage: "percentage ex_env 1 = 1 / 7" "percentage ex_env_silent 1 = 1 / 7"
  by (simp_all add: percentage_def ex_env_silent_def ex_env_fields ex_members_nonempty)

lemma ex_env_approved_fields:
  "gate_members ex_env_approved = ex_members" "prompt_id ex_env_approved = 900"
  "incident_actioned ex_env_approved = ''ok''" "incident_unactioned ex_env_approved = ''no''"
  "members ex_env_approved = ex_members"
  "unverified ex_env_approved = 7" "default_role ex_env_approved = 0"
  "current_dt ex_env_approved = ex_now"
  "kick ex_env_approved = ex_request" "add_roles ex_env_approved = ex_request"
  "reactions ex_env_approved = [\<lparr>r_message_id = 900, r_emoji = ''ok'', r_user_bot = False\<rparr>]"
  by (simp_all add: ex_env_approved_def ex_env_def)


lemma check_qualifying:
  "check (prompt_id e) [incident_actioned e, incident_unactioned e] r = qualifying e r"
  by (auto simp: check_def qualifying_def)

lemma find_first:
  "\<forall>x \<in> set before. \<not> P x \<Longrightarrow> P c \<Longrightarrow> find P (before @ c # after) = Some c"
  by (induction before) simp_all

lemma qualifying_response_first:
  "reactions e = before @ c # after \<Longrightarrow> \<forall>x \<in> set before. \<not> qualifying e x \<Longrightarrow>
   qualifying e c \<Longrightarrow> qualifying_response e = Some c"
  by (simp add: qualifying_response_def check_qualifying [abs_def] find_first)

lemma qualifying_response_none:
  "\<forall>x \<in> set (reactions e). \<not> qualifying e x \<Longrightarrow> qualifying_response e = None"
  by (simp add: qualifying_response_def check_qualifying [abs_def] find_None_iff)

section \<open>Claims about the gate\<close>

text \<open>
  C10. \<^verbatim>\<open>_verify_kick\<close> divides \<^verbatim>\<open>n_members\<close> by the number of guild members
  without testing it against zero. When the guild reports no member, the division raises
  \<^verbatim>\<open>ZeroDivisionError\<close>: the gate has written its first log line only, posts no
  prompt and gives no decision. When the guild reports at least one member, the gate
  returns a boolean, that is, a decision.
\<close>

theorem verify_kick_zero_members:
  "(gate_members e = [] \<longrightarrow>
      verify_kick thr e n = (Inl ZeroDivisionError, [Log (Checking_whether_safe_to_kick n)])
      \<and> authorize thr e n = Inl ZeroDivisionError)
   \<and> (gate_members e \<noteq> [] \<longrightarrow>
      (\<exists>result. fst (verify_kick thr e n) = Inr result)
      \<and> (\<exists>decision. authorize thr e n = Inr decision))"
proof (intro conjI impI)
  assume z: "gate_members e = []"
  show "verify_kick thr e n = (Inl ZeroDivisionError, [Log (Checking_whether_safe_to_kick n)])"
    using z by (rule verify_kick_zero)
  then show "authorize thr e n = Inl ZeroDivisionError"
    by (simp add: authorize_def)
next
  assume nz: "gate_members e \<noteq> []"
  show r: "\<exists>result. fst (verify_kick thr e n) = Inr result"
  proof (cases "percentage e n < thr")
    case True
    with nz show ?thesis by (auto simp: verify_kick_auto)
  next
    case False
    with nz show ?thesis
      by (cases "qualifying_response e") (auto simp: verify_kick_timeout verify_kick_answer)
  qed
  then show "\<exists>decision. authorize thr e n = Inr decision"
    by (cases "verify_kick thr e n") (auto simp: authorize_def)
qed

theorem verify_kick_zero_members_witness:
  "gate_members ex_env_empty = []
   \<and> fst (verify_kick KICK_CONFIRMATION_THRESHOLD ex_env_empty 1) = Inl ZeroDivisionError
   \<and> authorize KICK_CONFIRMATION_THRESHOLD ex_env_empty 1 = Inl ZeroDivisionError
   \<and> gate_members ex_env \<noteq> []
   \<and> (\<exists>decision. authorize KICK_CONFIRMATION_THRESHOLD ex_env 1 = Inr decision)"
proof -
  have z: "gate_members ex_env_empty = []"
    by (simp add: ex_env_empty_def)
  have nz: "gate_members ex_env \<noteq> []"
    by (simp add: ex_env_fields ex_members_nonempty)
  show ?thesis
    using z nz verify_kick_zero_members [of ex_env_empty KICK_CONFIRMATION_THRESHOLD 1]
      verify_kick_zero_members [of ex_env KICK_CONFIRMATION_THRESHOLD 1]
    by simp
qed

text \<open>
  C3. Let the guild report at least one member. For every candidate count \<open>n\<close> (a
  positive one in particular) and every threshold, the gate approves by itself iff
  \<open>n / N\<close> is below the threshold, and then it returns \<^verbatim>\<open>True\<close> having written two
  log lines only: no prompt, no wait. Otherwise it posts one prompt and waits once, for
  at most 300 seconds, for the first reaction that is to the prompt, carries one of the
  two emoji and comes from a human: with the approval emoji the gate returns
  \<^verbatim>\<open>True\<close> (\<open>HumanApproved\<close>), with the other one, which is then the denial emoji,
  \<^verbatim>\<open>False\<close> (\<open>HumanDenied\<close>), and without such a reaction before the timeout
  \<^verbatim>\<open>False\<close> (\<open>TimedOut\<close>). With the threshold 0 of the source no batch is approved
  by the gate itself.

  The last three parts say it on the reactions themselves, with the qualifying response
  of the glossary. When the first qualifying reaction to arrive is one by a human, to the
  prompt, with the approval emoji, the gate returns \<^verbatim>\<open>True\<close> (\<open>HumanApproved\<close>); when
  it is one by a human, to the prompt, with the denial emoji (and the two emoji differ),
  the gate returns \<^verbatim>\<open>False\<close> (\<open>HumanDenied\<close>); when no reaction that arrives before
  the timeout qualifies, the gate returns \<^verbatim>\<open>False\<close> (\<open>TimedOut\<close>).
\<close>

theorem verify_kick_decides:
  assumes members: "gate_members e \<noteq> []"
  shows "(authorize thr e n = Inr AutoApproved \<longleftrightarrow> percentage e n < thr)
    \<and> (percentage e n < thr \<longrightarrow>
         verify_kick thr e n =
           (Inr True,
            [Log (Checking_whether_safe_to_kick n), Log (Seen_as_safe (percentage e n))]))
    \<and> (\<not> percentage e n < thr \<longrightarrow>
         filter is_prompt (snd (verify_kick thr e n)) = [Send_prompt n (percentage e n)]
         \<and> filter is_wait (snd (verify_kick thr e n)) = [Wait_for_reaction_add 300]
         \<and> (case qualifying_response e of
              None \<Rightarrow>
                fst (verify_kick thr e n) = Inr False \<and> authorize thr e n = Inr TimedOut
            | Some choice \<Rightarrow>
                r_message_id choice = prompt_id e \<and> \<not> r_user_bot choice
                \<and> (r_emoji choice = incident_actioned e \<longrightarrow>
                     fst (verify_kick thr e n) = Inr True
                     \<and> authorize thr e n = Inr HumanApproved)
                \<and> (r_emoji choice \<noteq> incident_actioned e \<longrightarrow>
                     r_emoji choice = incident_unactioned e
                     \<and> fst (verify_kick thr e n) = Inr False
                     \<and> authorize thr e n = Inr HumanDenied)))
    \<and> authorize KICK_CONFIRMATION_THRESHOLD e n \<noteq> Inr AutoApproved
    \<and> (\<forall>before choice after.
          \<not> percentage e n < thr \<and> reactions e = before @ choice # after
          \<and> (\<forall>x \<in> set before. \<not> qualifying e x)
          \<and> \<not> r_user_bot choice \<and> r_message_id choice = prompt_id e
          \<and> r_emoji choice = incident_actioned e
          \<longrightarrow> fst (verify_kick thr e n) = Inr True \<and> authorize thr e n = Inr HumanApproved)
    \<and> (\<forall>before choice after.
          \<not> percentage e n < thr \<and> reactions e = before @ choice # after
          \<and> (\<forall>x \<in> set before. \<not> qualifying e x)
          \<and> \<not> r_user_bot choice \<and> r_message_id choice = prompt_id e
          \<and> r_emoji choice = incident_unactioned e
          \<and> incident_unactioned e \<noteq> incident_actioned e
          \<longrightarrow> fst (verify_kick thr e n) = Inr False \<and> authorize thr e n = Inr HumanDenied)
    \<and> (\<not> percentage e n < thr \<and> (\<forall>x \<in> set (reactions e). \<not> qualifying e x)
          \<longrightarrow> fst (verify_kick thr e n) = Inr False \<and> authorize thr e n = Inr TimedOut)"
proof -
  have auto_iff: "authorize t e n = Inr AutoApproved \<longleftrightarrow> percentage e n < t" for t
  proof (cases "percentage e n < t")
    case True
    with members show ?thesis by (simp add: authorize_auto)
  next
    case False
    with members show ?thesis
      by (cases "qualifying_response e") (simp_all add: authorize_timeout authorize_answer)
  qed
  have auto_case: "verify_kick thr e n =
      (Inr True, [Log (Checking_whether_safe_to_kick n), Log (Seen_as_safe (percentage e n))])"
    if "percentage e n < thr"
    using members that by (rule verify_kick_auto)
  have asked: "filter is_prompt (snd (verify_kick thr e n)) = [Send_prompt n (percentage e n)]
      \<and> filter is_wait (snd (verify_kick thr e n)) = [Wait_for_reaction_add 300]"
    if "\<not> percentage e n < thr"
    using members that
    by (cases "qualifying_response e")
      (simp_all add: verify_kick_timeout verify_kick_answer prompt_events_kinds)
  have answered: "case qualifying_response e of
        None \<Rightarrow> fst (verify_kick thr e n) = Inr False \<and> authorize thr e n = Inr TimedOut
      | Some choice \<Rightarrow>
          r_message_id choice = prompt_id e \<and> \<not> r_user_bot choice
          \<and> (r_emoji choice = incident_actioned e \<longrightarrow>
               fst (verify_kick thr e n) = Inr True \<and> authorize thr e n = Inr HumanApproved)
          \<and> (r_emoji choice \<noteq> incident_actioned e \<longrightarrow>
               r_emoji choice = incident_unactioned e
               \<and> fst (verify_kick thr e n) = Inr False
               \<and> authorize thr e n = Inr HumanDenied)"
    if ask: "\<not> percentage e n < thr"
  proof (cases "qualifying_response e")
    case None
    with members ask show ?thesis
      by (simp add: verify_kick_timeout authorize_timeout)
  next
    case (Some c)
    from qualifying_response_check [OF Some]
    have "r_message_id c = prompt_id e" "\<not> r_user_bot c"
      "r_emoji c = incident_actioned e \<or> r_emoji c = incident_unactioned e"
      by (auto simp: check_def)
    with members ask Some show ?thesis
      by (auto simp: verify_kick_answer authorize_answer)
  qed
  have never: "authorize KICK_CONFIRMATION_THRESHOLD e n \<noteq> Inr AutoApproved"
    by (simp add: auto_iff KICK_CONFIRMATION_THRESHOLD_def percentage_nonneg)
  have approval: "fst (verify_kick thr e n) = Inr True \<and> authorize thr e n = Inr HumanApproved"
    if "\<not> percentage e n < thr \<and> reactions e = before @ c # after
        \<and> (\<forall>x \<in> set before. \<not> qualifying e x)
        \<and> \<not> r_user_bot c \<and> r_message_id c = prompt_id e
        \<and> r_emoji c = incident_actioned e" for before c after
  proof -
    from that have q: "qualifying e c" by (simp add: qualifying_def)
    from that have "reactions e = before @ c # after" "\<forall>x \<in> set before. \<not> qualifying e x"
      by blast+
    then have "qualifying_response e = Some c"
      using q by (rule qualifying_response_first)
    with members that show ?thesis
      by (simp add: verify_kick_answer authorize_answer)
  qed
  have denial: "fst (verify_kick thr e n) = Inr False \<and> authorize thr e n = Inr HumanDenied"
    if "\<not> percentage e n < thr \<and> reactions e = before @ c # after
        \<and> (\<forall>x \<in> set before. \<not> qualifying e x)
        \<and> \<not> r_user_bot c \<and> r_message_id c = prompt_id e
        \<and> r_emoji c = incident_unactioned e
        \<and> incident_unactioned e \<noteq> incident_actioned e" for before c after
  proof -
    from that have q: "qualifying e c" by (simp add: qualifying_def)
    from that have "reactions e = before @ c # after" "\<forall>x \<in> set before. \<not> qualifying e x"
      by blast+
    then have "qualifying_response e = Some c"
      using q by (rule qualifying_response_first)
    with members that show ?thesis
      by (simp add: verify_kick_answer authorize_answer)
  qed
  have silence: "fst (verify_kick thr e n) = Inr False \<and> authorize thr e n = Inr TimedOut"
    if "\<not> percentage e n < thr \<and> (\<forall>x \<in> set (reactions e). \<not> qualifying e x)"
  proof -
    from that have "\<forall>x \<in> set (reactions e). \<not> qualifying e x"
      by blast
    then have "qualifying_response e = None"
      by (rule qualifying_response_none)
    with members that show ?thesis
      by (simp add: verify_kick_timeout authorize_timeout)
  qed
  have old: "(authorize thr e n = Inr AutoApproved \<longleftrightarrow> percentage e n < thr)
    \<and> (percentage e n < thr \<longrightarrow>
         verify_kick thr e n =
           (Inr True,
            [Log (Checking_whether_safe_to_kick n), Log (Seen_as_safe (percentage e n))]))
    \<and> (\<not> percentage e n < thr \<longrightarrow>
         filter is_prompt (snd (verify_kick thr e n)) = [Send_prompt n (percentage e n)]
         \<and> filter is_wait (snd (verify_kick thr e n)) = [Wait_for_reaction_add 300]
         \<and> (case qualifying_response e of
              None \<Rightarrow>
                fst (verify_kick thr e n) = Inr False \<and> authorize thr e n = Inr TimedOut
            | Some choice \<Rightarrow>
                r_message_id choice = prompt_id e \<and> \<not> r_user_bot choice
                \<and> (r_emoji choice = incident_actioned e \<longrightarrow>
                     fst (verify_kick thr e n) = Inr True
                     \<and> authorize thr e n = Inr HumanApproved)
                \<and> (r_emoji choice \<noteq> incident_actioned e \<longrightarrow>
                     r_emoji choice = incident_unactioned e
                     \<and> fst (verify_kick thr e n) = Inr False
                     \<and> authorize thr e n = Inr HumanDenied)))
    \<and> authorize KICK_CONFIRMATION_THRESHOLD e n \<noteq> Inr AutoApproved"
    using auto_iff [of thr] auto_case asked answered never by blast
  show ?thesis
    using old approval denial silence by blast
qed

theorem verify_kick_decides_witness:
  "gate_members ex_env \<noteq> [] \<and> gate_members ex_env_approved \<noteq> []
   \<and> gate_members ex_env_silent \<noteq> []
   \<and> reactions ex_env = take 3 ex_reactions @ ex_reactions ! 3 # drop 4 ex_reactions
   \<and> authorize KICK_CONFIRMATION_THRESHOLD ex_env 1 = Inr HumanDenied
   \<and> fst (verify_kick KICK_CONFIRMATION_THRESHOLD ex_env 1) = Inr False
   \<and> authorize KICK_CONFIRMATION_THRESHOLD ex_env_approved 1 = Inr HumanApproved
   \<and> fst (verify_kick KICK_CONFIRMATION_THRESHOLD ex_env_approved 1) = Inr True
   \<and> authorize KICK_CONFIRMATION_THRESHOLD ex_env_silent 1 = Inr TimedOut
   \<and> fst (verify_kick KICK_CONFIRMATION_THRESHOLD ex_env_silent 1) = Inr False
   \<and> authorize (1 / 2) ex_env 1 = Inr AutoApproved"
proof -
  have m: "gate_members ex_env \<noteq> []" "gate_members ex_env_approved \<noteq> []"
    "gate_members ex_env_silent \<noteq> []"
    by (simp_all add: ex_env_fields ex_env_approved_fields ex_env_silent_def
        ex_members_nonempty)
  have p: "\<not> percentage e 1 < KICK_CONFIRMATION_THRESHOLD" for e
    by (simp add: KICK_CONFIRMATION_THRESHOLD_def percentage_nonneg)
  have half: "percentage ex_env 1 < 1 / 2"
    using ex_percentage(1) by simp
  have r: "reactions ex_env = take 3 ex_reactions @ ex_reactions ! 3 # drop 4 ex_reactions"
    by (simp add: ex_env_fields ex_reactions_def)
  have denied: "\<not> percentage ex_env 1 < KICK_CONFIRMATION_THRESHOLD
      \<and> reactions ex_env = take 3 ex_reactions @ ex_reactions ! 3 # drop 4 ex_reactions
      \<and> (\<forall>x \<in> set (take 3 ex_reactions). \<not> qualifying ex_env x)
      \<and> \<not> r_user_bot (ex_reactions ! 3) \<and> r_message_id (ex_reactions ! 3) = prompt_id ex_env
      \<and> r_emoji (ex_reactions ! 3) = incident_unactioned ex_env
      \<and> incident_unactioned ex_env \<noteq> incident_actioned ex_env"
    using p [of ex_env] r by (simp add: ex_env_fields ex_reactions_def qualifying_def)
  have approved: "\<not> percentage ex_env_approved 1 < KICK_CONFIRMATION_THRESHOLD
      \<and> reactions ex_env_approved
          = [] @ \<lparr>r_message_id = 900, r_emoji = ''ok'', r_user_bot = False\<rparr> # []
      \<and> (\<forall>x \<in> set []. \<not> qualifying ex_env_approved x)
      \<and> \<not> r_user_bot \<lparr>r_message_id = 900, r_emoji = ''ok'', r_user_bot = False\<rparr>
      \<and> r_message_id \<lparr>r_message_id = 900, r_emoji = ''ok'', r_user_bot = False\<rparr>
          = prompt_id ex_env_approved
      \<and> r_emoji \<lparr>r_message_id = 900, r_emoji = ''ok'', r_user_bot = False\<rparr>
          = incident_actioned ex_env_approved"
    using p [of ex_env_approved] by (simp add: ex_env_approved_fields)
  have silent: "\<not> percentage ex_env_silent 1 < KICK_CONFIRMATION_THRESHOLD
      \<and> (\<forall>x \<in> set (reactions ex_env_silent). \<not> qualifying ex_env_silent x)"
    using p [of ex_env_silent] by (simp add: ex_env_silent_def qualifying_def)
  note d = verify_kick_decides [OF m(1), of KICK_CONFIRMATION_THRESHOLD 1,
      THEN conjunct2, THEN conjunct2, THEN conjunct2, THEN conjunct2, THEN conjunct2,
      THEN conjunct1, rule_format, OF denied]
  note a = verify_kick_decides [OF m(2), of KICK_CONFIRMATION_THRESHOLD 1,
      THEN conjunct2, THEN conjunct2, THEN conjunct2, THEN conjunct2,
      THEN conjunct1, rule_format, OF approved]
  note s = verify_kick_decides [OF m(3), of KICK_CONFIRMATION_THRESHOLD 1,
      THEN conjunct2, THEN conjunct2, THEN conjunct2, THEN conjunct2, THEN conjunct2,
      THEN conjunct2, rule_format, OF silent]
  from verify_kick_decides [OF m(1), of "1 / 2" 1] half
  have auto: "authorize (1 / 2) ex_env 1 = Inr AutoApproved"
    by simp
  show ?thesis
    using m r d a s auto by simp
qed

text \<open>
  C8. The claim fails for the timeout: the \<^verbatim>\<open>except asyncio.TimeoutError\<close> branch
  returns before the prompt is edited, and only the \<^verbatim>\<open>finally\<close> clause runs. In the
  example guild where nobody but a bot reacts, the gate returns \<^verbatim>\<open>False\<close>, clears the
  reactions of the prompt and makes no edit.
\<close>

theorem verify_kick_timeout_no_edit:
  "fst (verify_kick KICK_CONFIRMATION_THRESHOLD ex_env_silent 1) = Inr False
   \<and> authorize KICK_CONFIRMATION_THRESHOLD ex_env_silent 1 = Inr TimedOut
   \<and> filter is_clear (snd (verify_kick KICK_CONFIRMATION_THRESHOLD ex_env_silent 1))
       = [Clear_reactions 900]
   \<and> filter is_edit (snd (verify_kick KICK_CONFIRMATION_THRESHOLD ex_env_silent 1)) = []"
proof -
  have m: "gate_members ex_env_silent \<noteq> []" "prompt_id ex_env_silent = 900"
    by (simp_all add: ex_env_silent_def ex_env_fields ex_members_nonempty)
  have p: "\<not> percentage ex_env_silent 1 < KICK_CONFIRMATION_THRESHOLD"
    by (simp add: KICK_CONFIRMATION_THRESHOLD_def percentage_nonneg)
  note v = verify_kick_timeout [OF m(1) p ex_qualifying_response_silent]
  note a = authorize_timeout [OF m(1) p ex_qualifying_response_silent]
  show ?thesis
    unfolding v a by (simp add: prompt_events_kinds m(2))
qed

text \<open>
  C8, amended. Whenever the gate has posted its prompt, that is, the guild reports at
  least one member and the quotient is not below the threshold, the reactions of the
  prompt are cleared exactly once, on approval, on denial and on timeout alike. The
  prompt is edited exactly when a qualifying reaction arrived, after the reactions were
  cleared, to \<open>authorized\<close> for the approval emoji and to \<open>denied\<close> otherwise; on
  timeout the prompt is not edited.
\<close>

theorem verify_kick_cleanup:
  assumes "gate_members e \<noteq> []" and "\<not> percentage e n < thr"
  shows "filter is_clear (snd (verify_kick thr e n)) = [Clear_reactions (prompt_id e)]
    \<and> (case qualifying_response e of
          None \<Rightarrow> filter is_edit (snd (verify_kick thr e n)) = []
        | Some choice \<Rightarrow>
            filter (\<lambda>ev. is_clear ev \<or> is_edit ev) (snd (verify_kick thr e n)) =
              [Clear_reactions (prompt_id e),
               Edit_prompt (prompt_id e) n
                 (if r_emoji choice = incident_actioned e then ''authorized''
                  else ''denied'')])"
proof (cases "qualifying_response e")
  case None
  show ?thesis
    by (simp add: verify_kick_timeout [OF assms None] None prompt_events_kinds)
next
  case (Some c)
  have both: "filter (\<lambda>ev. is_clear ev \<or> is_edit ev) (prompt_events e n p) = []" for p
    by (simp add: prompt_events_def)
  show ?thesis
    by (simp add: verify_kick_answer [OF assms Some] Some prompt_events_kinds both)
qed

theorem verify_kick_cleanup_witness:
  "gate_members ex_env \<noteq> [] \<and> \<not> percentage ex_env 1 < KICK_CONFIRMATION_THRESHOLD
   \<and> filter (\<lambda>ev. is_clear ev \<or> is_edit ev)
        (snd (verify_kick KICK_CONFIRMATION_THRESHOLD ex_env 1))
       = [Clear_reactions 900, Edit_prompt 900 1 ''denied'']"
proof -
  have m: "gate_members ex_env \<noteq> []"
    by (simp add: ex_env_fields ex_members_nonempty)
  have p: "\<not> percentage ex_env 1 < KICK_CONFIRMATION_THRESHOLD"
    by (simp add: KICK_CONFIRMATION_THRESHOLD_def percentage_nonneg)
  show ?thesis
    using m p verify_kick_cleanup [OF m p]
    by (simp add: ex_qualifying_response ex_env_fields)
qed

section \<open>Claims about the reminder\<close>




text \<open>
  C7. The time that \<^verbatim>\<open>_before_first_ping\<close> sleeps is \<open>computeInitialDelay\<close> at the
  frequency of 28 hours. Without a cached id the function returns at once and does not
  sleep at all. With a cached id it sleeps once, for
  \<open>max (frequency - (now - timestampOf id)) 0\<close>: for an id created \<open>frequency - 1 hour\<close>
  ago that is one hour, and for an id at least as old as the frequency it is 0.
\<close>

theorem before_first_ping_delay:
  "slept (before_first_ping timestampOf now cache) =
     computeInitialDelay timestampOf cache (timedelta_hours REMINDER_FREQUENCY) now
   \<and> (cache = None \<longrightarrow>
        before_first_ping timestampOf now cache = [Cache_get, Log Reminder_not_cached])
   \<and> (\<forall>i. cache = Some i \<longrightarrow>
        before_first_ping timestampOf now cache =
          [Cache_get,
           Log (Time_since_reminder (now - timestampOf i)),
           Log (Time_to_sleep (timedelta_hours 28 - (now - timestampOf i))),
           Sleep (max (timedelta_hours 28 - (now - timestampOf i)) 0)])
   \<and> (\<forall>i. cache = Some i \<and> now - timestampOf i = timedelta_hours 28 - timedelta_hours 1 \<longrightarrow>
        slept (before_first_ping timestampOf now cache) = timedelta_hours 1)
   \<and> (\<forall>i. cache = Some i \<and> now - timestampOf i \<ge> timedelta_hours 28 \<longrightarrow>
        slept (before_first_ping timestampOf now cache) = 0)"
  by (cases cache)
    (simp_all add: before_first_ping_def computeInitialDelay_def REMINDER_FREQUENCY_def
      Let_def timedelta_hours_def)

theorem before_first_ping_delay_witness:
  "slept (before_first_ping ex_snowflake_time (timedelta_hours 32) None) = 0
   \<and> timedelta_hours 32 - ex_snowflake_time 5 = timedelta_hours 28 - timedelta_hours 1
   \<and> slept (before_first_ping ex_snowflake_time (timedelta_hours 32) (Some 5)) = 3600000000
   \<and> timedelta_hours 28 \<le> timedelta_hours 40 - ex_snowflake_time 5
   \<and> slept (before_first_ping ex_snowflake_time (timedelta_hours 40) (Some 5)) = 0"
proof -
  have a: "timedelta_hours 32 - ex_snowflake_time 5 = timedelta_hours 28 - timedelta_hours 1"
    "timedelta_hours 28 \<le> timedelta_hours 40 - ex_snowflake_time 5"
    by (simp_all add: ex_snowflake_time_def timedelta_hours_def)
  have h: "timedelta_hours 1 = 3600000000"
    by (simp add: timedelta_hours_def)
  from before_first_ping_delay [of ex_snowflake_time "timedelta_hours 32" None]
  have n: "slept (before_first_ping ex_snowflake_time (timedelta_hours 32) None) = 0"
    by (simp add: computeInitialDelay_def)
  from before_first_ping_delay [of ex_snowflake_time "timedelta_hours 32" "Some 5"] a(1)
  have s: "slept (before_first_ping ex_snowflake_time (timedelta_hours 32) (Some 5))
      = timedelta_hours 1"
    by blast
  from before_first_ping_delay [of ex_snowflake_time "timedelta_hours 40" "Some 5"] a(2)
  have z: "slept (before_first_ping ex_snowflake_time (timedelta_hours 40) (Some 5)) = 0"
    by blast
  show ?thesis
    using a n s z by (simp add: h)
qed

section \<open>Properties of the cycle\<close>

















section \<open>Claims about the cycle\<close>





















section \<open>Idempotence of the cycle\<close>




end
